theory Spec2Isabelle
  imports Main "HOL-Library.AList"
begin

section \<open>Python values\<close>

text \<open>
  The development embeds \<^verbatim>\<open>fetch_wf_config\<close> of \<^verbatim>\<open>nf_core/utils.py\<close>.
  A Python \<^verbatim>\<open>bytes\<close> object is a list of 8-bit characters, a Python \<^verbatim>\<open>str\<close> is the
  list of its Unicode code points, and a \<^verbatim>\<open>dict\<close> with string keys is an association
  list in insertion order: \<^verbatim>\<open>d[k] = v\<close> is \<open>AList.update k v d\<close>, which replaces the
  value in place when the key is present and appends the pair otherwise.
\<close>

type_synonym bytes = string
type_synonym str = "nat list"
type_synonym path = str
type_synonym config = "(str \<times> str) list"

definition ascii :: "string \<Rightarrow> str" where
  "ascii s = map of_char s"

datatype errno = ENOENT | EACCES | EEXIST | EISDIR | ENOTDIR | ENOSPC

datatype pyval = S str | I int | B bytes

text \<open>
  The exceptions that can leave \<^verbatim>\<open>fetch_wf_config\<close>. \<^verbatim>\<open>FileNotFoundError\<close> is the
  \<^verbatim>\<open>OSError\<close> whose errno is \<^verbatim>\<open>ENOENT\<close>, \<^verbatim>\<open>PermissionError\<close> the one whose errno is
  \<^verbatim>\<open>EACCES\<close>. An \<^verbatim>\<open>AssertionError\<close> carries the arguments it was built with.
\<close>

datatype exn =
    TypeError
  | OSError errno
  | UnicodeDecodeError
  | UnicodeEncodeError
  | JSONDecodeError
  | AssertionError "pyval list"

subsection \<open>UTF-8\<close>

definition cont :: "nat \<Rightarrow> bool" where
  "cont b = (128 \<le> b \<and> b < 192)"

text \<open>Strict UTF-8 decoding of a list of byte values (no overlong forms, no surrogates).\<close>

fun utf8_decode :: "nat list \<Rightarrow> str option" where
  "utf8_decode [] = Some []"
| "utf8_decode (b # bs) =
    (if b < 128 then map_option (Cons b) (utf8_decode bs)
     else if 194 \<le> b \<and> b < 224 then
       (case bs of
          b1 # r \<Rightarrow>
            if cont b1
            then map_option (Cons ((b - 192) * 64 + (b1 - 128))) (utf8_decode r)
            else None
        | _ \<Rightarrow> None)
     else if 224 \<le> b \<and> b < 240 then
       (case bs of
          b1 # b2 # r \<Rightarrow>
            if cont b1 \<and> cont b2 \<and> (b = 224 \<longrightarrow> 160 \<le> b1) \<and> (b = 237 \<longrightarrow> b1 < 160)
            then map_option (Cons ((b - 224) * 4096 + (b1 - 128) * 64 + (b2 - 128)))
                   (utf8_decode r)
            else None
        | _ \<Rightarrow> None)
     else if 240 \<le> b \<and> b < 245 then
       (case bs of
          b1 # b2 # b3 # r \<Rightarrow>
            if cont b1 \<and> cont b2 \<and> cont b3 \<and> (b = 240 \<longrightarrow> 144 \<le> b1) \<and> (b = 244 \<longrightarrow> b1 < 144)
            then map_option
                   (Cons ((b - 240) * 262144 + (b1 - 128) * 4096 + (b2 - 128) * 64 + (b3 - 128)))
                   (utf8_decode r)
            else None
        | _ \<Rightarrow> None)
     else None)"

text \<open>\<^verbatim>\<open>b.decode("utf-8")\<close>\<close>

definition bytes_decode :: "bytes \<Rightarrow> exn + str" where
  "bytes_decode b =
     (case utf8_decode (map of_char b) of
        None \<Rightarrow> Inl UnicodeDecodeError
      | Some s \<Rightarrow> Inr s)"

definition utf8_encode_cp :: "nat \<Rightarrow> nat list option" where
  "utf8_encode_cp cp =
     (if cp < 128 then Some [cp]
      else if cp < 2048 then Some [192 + cp div 64, 128 + cp mod 64]
      else if cp < 65536 then
        (if 55296 \<le> cp \<and> cp < 57344 then None
         else Some [224 + cp div 4096, 128 + (cp div 64) mod 64, 128 + cp mod 64])
      else if cp < 1114112 then
        Some [240 + cp div 262144, 128 + (cp div 4096) mod 64, 128 + (cp div 64) mod 64,
              128 + cp mod 64]
      else None)"

text \<open>\<^verbatim>\<open>s.encode("utf-8")\<close>\<close>

fun str_encode :: "str \<Rightarrow> exn + bytes" where
  "str_encode [] = Inr []"
| "str_encode (cp # cps) =
     (case utf8_encode_cp cp of
        None \<Rightarrow> Inl UnicodeEncodeError
      | Some bs \<Rightarrow>
          (case str_encode cps of
             Inl e \<Rightarrow> Inl e
           | Inr rest \<Rightarrow> Inr (map char_of bs @ rest)))"

subsection \<open>Lines and splitting\<close>

text \<open>
  \<^verbatim>\<open>bytes.splitlines()\<close> and the line iteration of a text file opened with universal
  newlines both end a line at \<^verbatim>\<open>\n\<close>, \<^verbatim>\<open>\r\n\<close> or \<^verbatim>\<open>\r\<close>, and give no empty last line.
  \<open>cur\<close> is the line read so far. The lines are returned without their terminator.
\<close>

fun split_lines :: "'a \<Rightarrow> 'a \<Rightarrow> 'a list \<Rightarrow> 'a list \<Rightarrow> 'a list list" where
  "split_lines cr lf cur [] = (if cur = [] then [] else [cur])"
| "split_lines cr lf cur [c] = (if c = lf \<or> c = cr then [cur] else [cur @ [c]])"
| "split_lines cr lf cur (c # c' # cs) =
     (if c = cr \<and> c' = lf then cur # split_lines cr lf [] cs
      else if c = lf \<or> c = cr then cur # split_lines cr lf [] (c' # cs)
      else split_lines cr lf (cur @ [c]) (c' # cs))"

definition bytes_splitlines :: "bytes \<Rightarrow> bytes list" where
  "bytes_splitlines b = split_lines (CHR 0x0D) (CHR 0x0A) [] b"

definition text_lines :: "str \<Rightarrow> str list" where
  "text_lines s = split_lines 13 10 [] s"

text \<open>\<^verbatim>\<open>s.find(sep)\<close>: the index of the first occurrence of \<open>sep\<close>, if any.\<close>

fun str_find :: "str \<Rightarrow> str \<Rightarrow> nat option" where
  "str_find sep [] = (if sep = [] then Some 0 else None)"
| "str_find sep (c # cs) =
     (if take (length sep) (c # cs) = sep then Some 0
      else map_option Suc (str_find sep cs))"

text \<open>\<^verbatim>\<open>s.split(sep, 1)\<close> for a non-empty separator: one or two pieces.\<close>

definition str_split1 :: "str \<Rightarrow> str \<Rightarrow> str list" where
  "str_split1 sep s =
     (case str_find sep s of
        None \<Rightarrow> [s]
      | Some i \<Rightarrow> [take i s, drop (i + length sep) s])"

subsection \<open>Paths\<close>

text \<open>\<^verbatim>\<open>os.path.join(a, b)\<close> of \<^verbatim>\<open>posixpath\<close>; 47 is the slash.\<close>

definition os_path_join :: "path \<Rightarrow> path \<Rightarrow> path" where
  "os_path_join a b =
     (if take 1 b = [47] then b
      else if a = [] \<or> last a = 47 then a @ b
      else a @ [47] @ b)"

section \<open>The world outside the function\<close>

datatype node = Dir | File bytes

text \<open>The result of \<^verbatim>\<open>subprocess.check_output\<close>.\<close>

datatype proc_result =
    RaisesOSError errno
  | CalledProcessError int bytes
  | Stdout bytes

text \<open>The effects of \<^verbatim>\<open>fetch_wf_config\<close> that the properties below speak about.\<close>

datatype event =
    MkDir path
  | CacheProbe path
  | CacheLoad path
  | RunTool "str list"
  | Scrape path
  | CacheSave path

text \<open>
  \<open>environ\<close> is \<^verbatim>\<open>os.environ\<close>; \<open>fs\<close> maps a path to what is there; \<open>unreadable\<close>,
  \<open>deny_write\<close> and \<open>deny_mkdir\<close> say where the operating system refuses an operation
  (permissions, a full or read-only disk); \<open>subprocess\<close> is what running a command gives;
  \<open>trace\<close> records the effects in the order in which the function performs them.
\<close>

record world =
  environ :: "str \<rightharpoonup> str"
  fs :: "path \<rightharpoonup> node"
  unreadable :: "path \<Rightarrow> bool"
  deny_write :: "path \<Rightarrow> errno option"
  deny_mkdir :: "path \<Rightarrow> errno option"
  subprocess :: "str list \<Rightarrow> proc_result"
  trace :: "event list"

text \<open>
  The library functions the code calls and that are taken as parameters:
  \<^verbatim>\<open>hashlib.sha256(b).digest()\<close>, \<^verbatim>\<open>json.load\<close> on the bytes of a file and
  \<^verbatim>\<open>json.dump(config, fh, indent=4)\<close> as the bytes written.
\<close>

record pylib =
  sha256 :: "bytes \<Rightarrow> bytes"
  json_load :: "bytes \<Rightarrow> exn + config"
  json_dump :: "config \<Rightarrow> bytes"

definition log_event :: "event \<Rightarrow> world \<Rightarrow> world" where
  "log_event ev w = w\<lparr>trace := trace w @ [ev]\<rparr>"

definition os_path_isdir :: "world \<Rightarrow> path \<Rightarrow> bool" where
  "os_path_isdir w p = (fs w p = Some Dir)"

definition os_path_isfile :: "world \<Rightarrow> path \<Rightarrow> bool" where
  "os_path_isfile w p = (case fs w p of Some (File c) \<Rightarrow> True | _ \<Rightarrow> False)"

text \<open>
  The proper prefixes of a path that end before a slash: the directories that are
  walked through on the way to it (\<^verbatim>\<open>/wf\<close> for \<^verbatim>\<open>/wf/main.nf\<close>).
\<close>

definition path_prefixes :: "path \<Rightarrow> path list" where
  "path_prefixes p = map (\<lambda>i. take i p) (filter (\<lambda>i. p ! i = 47) [1..<length p])"

text \<open>
  Opening a file for reading and reading all of it. When a component on the way to the
  path is a regular file, \<^verbatim>\<open>open\<close> raises \<^verbatim>\<open>NotADirectoryError\<close> (errno \<^verbatim>\<open>ENOTDIR\<close>),
  which is not a \<^verbatim>\<open>FileNotFoundError\<close>; \<^verbatim>\<open>FileNotFoundError\<close> is errno \<^verbatim>\<open>ENOENT\<close>.
\<close>

definition open_read :: "world \<Rightarrow> path \<Rightarrow> exn + bytes" where
  "open_read w p =
     (if list_ex (os_path_isfile w) (path_prefixes p) then Inl (OSError ENOTDIR)
      else case fs w p of
             None \<Rightarrow> Inl (OSError ENOENT)
           | Some Dir \<Rightarrow> Inl (OSError EISDIR)
           | Some (File c) \<Rightarrow> if unreadable w p then Inl (OSError EACCES) else Inr c)"

text \<open>Opening a file for writing (created or truncated) and writing \<open>data\<close>.\<close>

definition open_write :: "path \<Rightarrow> bytes \<Rightarrow> world \<Rightarrow> (exn + unit) \<times> world" where
  "open_write p data w =
     (case deny_write w p of
        Some e \<Rightarrow> (Inl (OSError e), w)
      | None \<Rightarrow>
          (case fs w p of
             Some Dir \<Rightarrow> (Inl (OSError EISDIR), w)
           | _ \<Rightarrow> (Inr (), w\<lparr>fs := (fs w)(p \<mapsto> File data)\<rparr>)))"

definition os_mkdir :: "path \<Rightarrow> world \<Rightarrow> (exn + unit) \<times> world" where
  "os_mkdir p w =
     (let w' = log_event (MkDir p) w in
      case deny_mkdir w p of
        Some e \<Rightarrow> (Inl (OSError e), w')
      | None \<Rightarrow>
          if fs w p \<noteq> None then (Inl (OSError EEXIST), w')
          else (Inr (), w'\<lparr>fs := (fs w)(p \<mapsto> Dir)\<rparr>))"

section \<open>The function\<close>

text \<open>
  Lines 168-169: \<^verbatim>\<open>os.environ.get("NXF_HOME", os.path.join(os.getenv("HOME"), ".nextflow"))\<close>.
  The default is computed before the lookup, and \<^verbatim>\<open>os.path.join\<close> raises
  \<^verbatim>\<open>TypeError\<close> on the \<^verbatim>\<open>None\<close> that \<^verbatim>\<open>os.getenv\<close> gives for an unset variable.
\<close>

definition nxf_home_dir :: "world \<Rightarrow> exn + path" where
  "nxf_home_dir w =
     (case environ w (ascii ''HOME'') of
        None \<Rightarrow> Inl TypeError
      | Some home \<Rightarrow>
          (let dflt = os_path_join home (ascii ''.nextflow'') in
           case environ w (ascii ''NXF_HOME'') of
             Some h \<Rightarrow> Inr h
           | None \<Rightarrow> Inr dflt))"

text \<open>Lines 171-175: the cache directory, made when the home directory is there.\<close>

definition build_cache_basedir :: "path \<Rightarrow> world \<Rightarrow> (exn + path option) \<times> world" where
  "build_cache_basedir nxf_home w =
     (if os_path_isdir w nxf_home then
        (let cache_basedir = os_path_join nxf_home (ascii ''nf-core'') in
         if \<not> os_path_isdir w cache_basedir then
           (case os_mkdir cache_basedir w of
              (Inl e, w') \<Rightarrow> (Inl e, w')
            | (Inr u, w') \<Rightarrow> (Inr (Some cache_basedir), w'))
         else (Inr (Some cache_basedir), w))
      else (Inr None, w))"

text \<open>\<^verbatim>\<open>hashlib.sha256(b).hexdigest()\<close>: two lower-case hexadecimal digits for each byte.\<close>

definition hex_digit :: "nat \<Rightarrow> nat" where
  "hex_digit n = (if n < 10 then 48 + n else 87 + n)"

definition hexdigest :: "bytes \<Rightarrow> str" where
  "hexdigest d = concat (map (\<lambda>c. [hex_digit (of_char c div 16), hex_digit (of_char c mod 16)]) d)"

definition tracked_files :: "str list" where
  "tracked_files = [ascii ''nextflow.config'', ascii ''main.nf'']"

text \<open>
  Lines 180-186: the loop over the tracked files. Only \<^verbatim>\<open>FileNotFoundError\<close> is caught;
  any other error of \<^verbatim>\<open>open\<close> leaves the function.
\<close>

fun hash_files :: "pylib \<Rightarrow> world \<Rightarrow> path \<Rightarrow> str list \<Rightarrow> str \<Rightarrow> exn + str" where
  "hash_files lib w wf_path [] concat_hash = Inr concat_hash"
| "hash_files lib w wf_path (fn # fns) concat_hash =
     (case open_read w (os_path_join wf_path fn) of
        Inl e \<Rightarrow>
          if e = OSError ENOENT then hash_files lib w wf_path fns concat_hash else Inl e
      | Inr data \<Rightarrow>
          hash_files lib w wf_path fns (concat_hash @ hexdigest (sha256 lib data)))"

text \<open>Lines 178-190: the name of the cache file, \<open>None\<close> when no tracked file was read.\<close>

definition cache_filename :: "pylib \<Rightarrow> path \<Rightarrow> world \<Rightarrow> exn + str option" where
  "cache_filename lib wf_path w =
     (case hash_files lib w wf_path tracked_files [] of
        Inl e \<Rightarrow> Inl e
      | Inr concat_hash \<Rightarrow>
          if length concat_hash > 0 then
            (case str_encode concat_hash of
               Inl e \<Rightarrow> Inl e
             | Inr b \<Rightarrow>
                 (let bighash = hexdigest (sha256 lib b) in
                  Inr (Some (ascii ''wf-config-cache-'' @ take 25 bighash @ ascii ''.json''))))
          else Inr None)"

text \<open>
  Lines 192-199: the cache lookup. A Python string is true when it is not empty. The
  lookup returns the loaded mapping, or the path at which to save later (if any).
\<close>

datatype lookup = Hit config | Miss "path option"

definition load_cache ::
  "pylib \<Rightarrow> path option \<Rightarrow> str option \<Rightarrow> world \<Rightarrow> (exn + lookup) \<times> world" where
  "load_cache lib cache_basedir cache_fn w =
     (case (cache_basedir, cache_fn) of
        (Some b, Some f) \<Rightarrow>
          if b \<noteq> [] \<and> f \<noteq> [] then
            (let cache_path = os_path_join b f;
                 w1 = log_event (CacheProbe cache_path) w in
             if os_path_isfile w cache_path then
               (let w2 = log_event (CacheLoad cache_path) w1 in
                case open_read w cache_path of
                  Inl e \<Rightarrow> (Inl e, w2)
                | Inr raw \<Rightarrow>
                    (case json_load lib raw of
                       Inl e \<Rightarrow> (Inl e, w2)
                     | Inr config \<Rightarrow> (Inr (Hit config), w2)))
             else (Inr (Miss (Some cache_path)), w1))
          else (Inr (Miss None), w)
      | _ \<Rightarrow> (Inr (Miss None), w))"

text \<open>
  Lines 211-217: the loop over the lines of the tool's output. The decoding is outside
  the inner \<^verbatim>\<open>try\<close>; the \<^verbatim>\<open>ValueError\<close> of unpacking a list that has not two elements
  is caught and the line skipped.
\<close>

fun parse_nfconfig :: "bytes list \<Rightarrow> config \<Rightarrow> exn + config" where
  "parse_nfconfig [] config = Inr config"
| "parse_nfconfig (l # ls) config =
     (case bytes_decode l of
        Inl e \<Rightarrow> Inl e
      | Inr ul \<Rightarrow>
          (case str_split1 (ascii '' = '') ul of
             [k, v] \<Rightarrow> parse_nfconfig ls (AList.update k v config)
           | _ \<Rightarrow> parse_nfconfig ls config))"

definition nextflow_argv :: "path \<Rightarrow> str list" where
  "nextflow_argv wf_path = [ascii ''nextflow'', ascii ''config'', ascii ''-flat'', wf_path]"

definition msg_not_installed :: str where
  "msg_not_installed =
     ascii ''It looks like Nextflow is not installed. It is required for most nf-core functions.''"

definition msg_nonzero :: str where
  "msg_nonzero =
     ascii ''`nextflow config` returned non-zero error code: %s,'' @ [10] @ ascii ''   %s''"

text \<open>
  Lines 201-217: the call of \<^verbatim>\<open>nextflow config -flat\<close>. An \<^verbatim>\<open>OSError\<close> whose errno is
  not \<^verbatim>\<open>ENOENT\<close> is caught and nothing is raised in its place: the \<^verbatim>\<open>else\<close> branch of
  the \<^verbatim>\<open>try\<close> is skipped and \<open>config\<close> is as it was.
\<close>

definition nextflow_config :: "path \<Rightarrow> config \<Rightarrow> world \<Rightarrow> (exn + config) \<times> world" where
  "nextflow_config wf_path config w =
     (let w' = log_event (RunTool (nextflow_argv wf_path)) w in
      case subprocess w (nextflow_argv wf_path) of
        RaisesOSError e \<Rightarrow>
          if e = ENOENT then (Inl (AssertionError [S msg_not_installed]), w')
          else (Inr config, w')
      | CalledProcessError returncode output \<Rightarrow>
          (Inl (AssertionError [S msg_nonzero, I returncode, B output]), w')
      | Stdout nfconfig_raw \<Rightarrow> (parse_nfconfig (bytes_splitlines nfconfig_raw) config, w'))"

text \<open>
  The regular expression \<^verbatim>\<open>^\s*(params\.[a-zA-Z0-9_]+)\s*=\<close> at the start of a line;
  the result is group 1. \<^verbatim>\<open>\s\<close> is Unicode white space, as for \<^verbatim>\<open>str.isspace\<close>.
\<close>

definition is_space :: "nat \<Rightarrow> bool" where
  "is_space c =
     ((9 \<le> c \<and> c \<le> 13) \<or> (28 \<le> c \<and> c \<le> 32) \<or> c = 133 \<or> c = 160 \<or> c = 5760
      \<or> (8192 \<le> c \<and> c \<le> 8202) \<or> c = 8232 \<or> c = 8233 \<or> c = 8239 \<or> c = 8287
      \<or> c = 12288)"

definition is_word :: "nat \<Rightarrow> bool" where
  "is_word c =
     ((97 \<le> c \<and> c \<le> 122) \<or> (65 \<le> c \<and> c \<le> 90) \<or> (48 \<le> c \<and> c \<le> 57) \<or> c = 95)"

definition match_param :: "str \<Rightarrow> str option" where
  "match_param l =
     (let l1 = dropWhile is_space l;
          p = ascii ''params.''
      in if take (length p) l1 = p then
           (let l2 = drop (length p) l1;
                name = takeWhile is_word l2;
                l3 = dropWhile is_space (dropWhile is_word l2)
            in if name \<noteq> [] \<and> take 1 l3 = [61] then Some (p @ name) else None)
         else None)"

definition scrape_line :: "str \<Rightarrow> config \<Rightarrow> config" where
  "scrape_line l config =
     (case match_param l of
        Some k \<Rightarrow> AList.update k (ascii ''false'') config
      | None \<Rightarrow> config)"

text \<open>
  Lines 219-229: the scan of \<^verbatim>\<open>main.nf\<close>, read as text (UTF-8 is taken as the
  encoding of the locale). Only \<^verbatim>\<open>FileNotFoundError\<close> is caught.
\<close>

definition scrape_main_nf :: "path \<Rightarrow> config \<Rightarrow> world \<Rightarrow> (exn + config) \<times> world" where
  "scrape_main_nf wf_path config w =
     (let main_nf = os_path_join wf_path (ascii ''main.nf'');
          w' = log_event (Scrape main_nf) w in
      case open_read w main_nf of
        Inl e \<Rightarrow> if e = OSError ENOENT then (Inr config, w') else (Inl e, w')
      | Inr raw \<Rightarrow>
          (case bytes_decode raw of
             Inl e \<Rightarrow> (Inl e, w')
           | Inr text \<Rightarrow> (Inr (fold scrape_line (text_lines text) config), w')))"

text \<open>Lines 231-235: the cache is written when there is a (non-empty) cache path.\<close>

definition save_cache :: "pylib \<Rightarrow> path option \<Rightarrow> config \<Rightarrow> world \<Rightarrow> (exn + unit) \<times> world" where
  "save_cache lib cache_path config w =
     (case cache_path of
        Some p \<Rightarrow>
          if p \<noteq> [] then open_write p (json_dump lib config) (log_event (CacheSave p) w)
          else (Inr (), w)
      | None \<Rightarrow> (Inr (), w))"

text \<open>
  Lines 152-237. An exception ends the function where it is raised; the effects
  performed until then stay.
\<close>

definition fetch_wf_config :: "pylib \<Rightarrow> path \<Rightarrow> world \<Rightarrow> (exn + config) \<times> world" where
  "fetch_wf_config lib wf_path w =
     (case nxf_home_dir w of
        Inl e \<Rightarrow> (Inl e, w)
      | Inr nxf_home \<Rightarrow>
     (case build_cache_basedir nxf_home w of
        (Inl e, w1) \<Rightarrow> (Inl e, w1)
      | (Inr cache_basedir, w1) \<Rightarrow>
     (case cache_filename lib wf_path w1 of
        Inl e \<Rightarrow> (Inl e, w1)
      | Inr cache_fn \<Rightarrow>
     (case load_cache lib cache_basedir cache_fn w1 of
        (Inl e, w2) \<Rightarrow> (Inl e, w2)
      | (Inr (Hit config), w2) \<Rightarrow> (Inr config, w2)
      | (Inr (Miss cache_path), w2) \<Rightarrow>
     (case nextflow_config wf_path [] w2 of
        (Inl e, w3) \<Rightarrow> (Inl e, w3)
      | (Inr config, w3) \<Rightarrow>
     (case scrape_main_nf wf_path config w3 of
        (Inl e, w4) \<Rightarrow> (Inl e, w4)
      | (Inr config', w4) \<Rightarrow>
     (case save_cache lib cache_path config' w4 of
        (Inl e, w5) \<Rightarrow> (Inl e, w5)
      | (Inr u, w5) \<Rightarrow> (Inr config', w5))))))))"

section \<open>Notions used in the statements\<close>

text \<open>
  The pair that one line of the tool's output contributes: the text before the first
  \<^verbatim>\<open>" = "\<close> and the text after it; nothing for a line without the separator.
\<close>

definition line_pair :: "bytes \<Rightarrow> (str \<times> str) option" where
  "line_pair l =
     (case bytes_decode l of
        Inl e \<Rightarrow> None
      | Inr ul \<Rightarrow>
          (case str_find (ascii '' = '') ul of
             None \<Rightarrow> None
           | Some i \<Rightarrow> Some (take i ul, drop (i + length (ascii '' = '')) ul)))"

text \<open>The parameter names that the scan of \<^verbatim>\<open>main.nf\<close> finds, in the order of the file.\<close>

definition scan_names :: "path \<Rightarrow> world \<Rightarrow> str list" where
  "scan_names wf_path w =
     (case open_read w (os_path_join wf_path (ascii ''main.nf'')) of
        Inl e \<Rightarrow> []
      | Inr raw \<Rightarrow>
          (case bytes_decode raw of
             Inl e \<Rightarrow> []
           | Inr text \<Rightarrow> List.map_filter match_param (text_lines text)))"

text \<open>
  Lines 172-175 and 192-193: the cache directory beneath the home directory \<open>h\<close>, whether
  line 175 is reached (the home directory is there and the cache directory is not), and the
  path of the cache file for the file name \<open>fn\<close> computed in lines 178-190.
\<close>

definition nf_core_dir :: "path \<Rightarrow> path" where
  "nf_core_dir h = os_path_join h (ascii ''nf-core'')"

definition makes_dir :: "world \<Rightarrow> path \<Rightarrow> bool" where
  "makes_dir w h = (os_path_isdir w h \<and> \<not> os_path_isdir w (nf_core_dir h))"

definition cache_path :: "world \<Rightarrow> path \<Rightarrow> str option \<Rightarrow> path option" where
  "cache_path w h fn =
     (if os_path_isdir w h then map_option (os_path_join (nf_core_dir h)) fn else None)"

text \<open>
  The world in which the tool is called when the cache directory could be made and the
  lookup found no file: the directory made, and the effects so far recorded.
\<close>

definition before_tool :: "world \<Rightarrow> path \<Rightarrow> str option \<Rightarrow> world" where
  "before_tool w h fn =
     w\<lparr>fs := (if makes_dir w h then (fs w)(nf_core_dir h \<mapsto> Dir) else fs w),
       trace := trace w @ (if makes_dir w h then [MkDir (nf_core_dir h)] else [])
                @ (case cache_path w h fn of Some p \<Rightarrow> [CacheProbe p] | None \<Rightarrow> [])\<rparr>"


section \<open>Concrete inputs\<close>

text \<open>
  Stand-ins for the library parameters, for the statements that are evaluated on a
  concrete input. The digest is not SHA-256 (32 bytes that depend on the length of the
  input only); every general statement below holds for any digest function.
  The two JSON functions agree with \<^verbatim>\<open>json.dump(config, fh, indent=4)\<close> and
  \<^verbatim>\<open>json.load\<close> on flat mappings whose keys and values are plain ASCII without quotes
  or backslashes; the loader rejects anything else.
\<close>

definition quote :: char where
  "quote = CHR 0x22"

definition dump_member :: "str \<Rightarrow> str \<Rightarrow> bytes" where
  "dump_member k v =
     ''    '' @ [quote] @ map char_of k @ [quote] @ '': '' @ [quote] @ map char_of v @ [quote]"

fun dump_members :: "config \<Rightarrow> bytes" where
  "dump_members [] = []"
| "dump_members [(k, v)] = dump_member k v @ [CHR 0x0A]"
| "dump_members ((k, v) # kvs) = dump_member k v @ '','' @ [CHR 0x0A] @ dump_members kvs"

definition json_dump_flat :: "config \<Rightarrow> bytes" where
  "json_dump_flat c = (if c = [] then ''{}'' else ''{'' @ [CHR 0x0A] @ dump_members c @ ''}'')"

definition load_member :: "bytes \<Rightarrow> (str \<times> str) option" where
  "load_member l =
     (let l1 = (if l \<noteq> [] \<and> last l = CHR '','' then butlast l else l)
      in if take 5 l1 = ''    '' @ [quote] then
           (let r = drop 5 l1;
                k = takeWhile (\<lambda>c. c \<noteq> quote) r;
                r2 = drop (length k) r
            in if take 4 r2 = [quote] @ '': '' @ [quote] then
                 (let r3 = drop 4 r2;
                      v = takeWhile (\<lambda>c. c \<noteq> quote) r3
                  in if drop (length v) r3 = [quote]
                     then Some (map of_char k, map of_char v) else None)
               else None)
         else None)"

fun load_members :: "bytes list \<Rightarrow> config \<Rightarrow> config option" where
  "load_members [] c = Some c"
| "load_members (l # ls) c =
     (case load_member l of
        None \<Rightarrow> None
      | Some (k, v) \<Rightarrow> load_members ls (AList.update k v c))"

definition json_load_flat :: "bytes \<Rightarrow> exn + config" where
  "json_load_flat raw =
     (case bytes_splitlines raw of
        [] \<Rightarrow> Inl JSONDecodeError
      | [l] \<Rightarrow> if l = ''{}'' then Inr [] else Inl JSONDecodeError
      | l # ls \<Rightarrow>
          if l = ''{'' \<and> last ls = ''}'' then
            (case load_members (butlast ls) [] of
               None \<Rightarrow> Inl JSONDecodeError
             | Some c \<Rightarrow> Inr c)
          else Inl JSONDecodeError)"

definition lib0 :: pylib where
  "lib0 =
     \<lparr>sha256 = (\<lambda>b. replicate 32 (char_of (length b))),
      json_load = json_load_flat,
      json_dump = json_dump_flat\<rparr>"

text \<open>
  A world with a home directory variable and nothing else: no file, no directory, no
  \<^verbatim>\<open>nextflow\<close> on the path, nothing refused. The other worlds are changes of it.
\<close>

definition world0 :: world where
  "world0 =
     \<lparr>environ = [ascii ''HOME'' \<mapsto> ascii ''/home/u''],
      fs = Map.empty,
      unreadable = (\<lambda>p. False),
      deny_write = (\<lambda>p. None),
      deny_mkdir = (\<lambda>p. None),
      subprocess = (\<lambda>argv. RaisesOSError ENOENT),
      trace = []\<rparr>"

text \<open>
  The Nextflow home directory exists, the workflow directory \<^verbatim>\<open>/wf\<close> has a \<^verbatim>\<open>main.nf\<close>
  that declares two parameters, and \<^verbatim>\<open>nextflow\<close> is not installed.
\<close>

definition world_home :: world where
  "world_home =
     world0\<lparr>fs := [ascii ''/home/u/.nextflow'' \<mapsto> Dir,
                   ascii ''/wf/main.nf'' \<mapsto>
                     File (''params.a = 2'' @ [CHR 0x0A] @ ''params.b = 3'')]\<rparr>"

text \<open>The tool prints one byte that is not UTF-8.\<close>

definition world_bad_output :: world where
  "world_bad_output = world0\<lparr>subprocess := \<lambda>argv. Stdout [CHR 0xFF]\<rparr>"

text \<open>
  As \<open>world_home\<close>, with the cache directory and a cache file under the name that the
  contents of \<^verbatim>\<open>/wf\<close> give; the file holds \<^verbatim>\<open>{"params.a": "1"}\<close>.
\<close>

definition world_hit :: world where
  "world_hit =
     world0\<lparr>fs := [ascii ''/home/u/.nextflow'' \<mapsto> Dir,
                   ascii ''/home/u/.nextflow/nf-core'' \<mapsto> Dir,
                   ascii ''/wf/main.nf'' \<mapsto>
                     File (''params.a = 2'' @ [CHR 0x0A] @ ''params.b = 3''),
                   ascii ''/home/u/.nextflow/nf-core/wf-config-cache-4040404040404040404040404.json''
                     \<mapsto> File (json_dump_flat [(ascii ''params.a'', ascii ''1'')])]\<rparr>"

text \<open>As \<open>world_home\<close>, but no directory may be made.\<close>

definition world_mkdir_refused :: world where
  "world_mkdir_refused = world_home\<lparr>deny_mkdir := \<lambda>p. Some EACCES\<rparr>"



section \<open>Paths, searching and parsing\<close>

lemma last_os_path_join: "b \<noteq> [] \<Longrightarrow> last (os_path_join a b) = last b"
  by (simp add: os_path_join_def)

lemma length_os_path_join:
  "take 1 b \<noteq> [47] \<Longrightarrow> length a + length b \<le> length (os_path_join a b)"
  by (simp add: os_path_join_def)

lemma os_path_join_neq_left: "b \<noteq> [] \<Longrightarrow> take 1 b \<noteq> [47] \<Longrightarrow> os_path_join a b \<noteq> a"
  using length_os_path_join[of b a] by (cases b) auto

lemma bytes_decode_cases: "bytes_decode l = Inl UnicodeDecodeError \<or> (\<exists>ul. bytes_decode l = Inr ul)"
  by (simp add: bytes_decode_def split: option.splits)

lemma str_find_Some:
  "str_find sp s = Some i \<Longrightarrow> i + length sp \<le> length s \<and> take (length sp) (drop i s) = sp"
proof (induction s arbitrary: i)
  case Nil
  then show ?case by (simp split: if_splits)
next
  case (Cons c cs)
  show ?case
  proof (cases "take (length sp) (c # cs) = sp")
    case True
    with Cons.prems have "i = 0" by simp
    moreover have "length sp \<le> length (c # cs)"
    proof -
      have "length (take (length sp) (c # cs)) = length sp" using True by simp
      then show ?thesis by (simp add: min_def split: if_splits)
    qed
    ultimately show ?thesis using True by simp
  next
    case False
    with Cons.prems obtain j where j: "str_find sp cs = Some j" "i = Suc j" by auto
    from Cons.IH[OF j(1)] j(2) show ?thesis by simp
  qed
qed

lemma str_find_first:
  "str_find sp s = Some i \<Longrightarrow> j < i \<Longrightarrow> take (length sp) (drop j s) \<noteq> sp"
proof (induction s arbitrary: i j)
  case Nil
  then show ?case by (simp split: if_splits)
next
  case (Cons c cs)
  show ?case
  proof (cases "take (length sp) (c # cs) = sp")
    case True
    with Cons.prems show ?thesis by simp
  next
    case False
    with Cons.prems obtain i' where i': "str_find sp cs = Some i'" "i = Suc i'" by auto
    show ?thesis
    proof (cases j)
      case 0
      with False show ?thesis by simp
    next
      case (Suc j')
      with Cons.prems i' have "j' < i'" by simp
      from Cons.IH[OF i'(1) this] Suc show ?thesis by simp
    qed
  qed
qed

lemma str_find_None:
  "str_find sp s = None \<Longrightarrow> take (length sp) (drop j s) \<noteq> sp"
proof (induction s arbitrary: j)
  case Nil
  then show ?case by (auto split: if_splits)
next
  case (Cons c cs)
  from Cons.prems have nt: "take (length sp) (c # cs) \<noteq> sp" and n: "str_find sp cs = None"
    by (auto split: if_splits)
  show ?case
  proof (cases j)
    case 0
    with nt show ?thesis by simp
  next
    case (Suc j')
    with Cons.IH[OF n, of j'] show ?thesis by simp
  qed
qed

lemma occurs_take_drop: "s = a @ sp @ b \<Longrightarrow> take (length sp) (drop (length a) s) = sp"
  by simp

lemma str_find_None_iff: "str_find sp s = None \<longleftrightarrow> (\<nexists>a b. s = a @ sp @ b)"
proof
  assume "str_find sp s = None"
  then show "\<nexists>a b. s = a @ sp @ b"
    using str_find_None occurs_take_drop by blast
next
  assume n: "\<nexists>a b. s = a @ sp @ b"
  show "str_find sp s = None"
  proof (rule ccontr)
    assume "str_find sp s \<noteq> None"
    then obtain i where i: "str_find sp s = Some i" by auto
    from str_find_Some[OF i] have "s = take i s @ sp @ drop (i + length sp) s"
      by (metis append_take_drop_id drop_drop add.commute)
    with n show False by blast
  qed
qed

lemma str_find_split:
  assumes "str_find sp s = Some i"
  shows "s = take i s @ sp @ drop (i + length sp) s"
    and "s = a @ sp @ b \<Longrightarrow> i \<le> length a"
proof -
  from str_find_Some[OF assms] show "s = take i s @ sp @ drop (i + length sp) s"
    by (metis append_take_drop_id drop_drop add.commute)
  show "s = a @ sp @ b \<Longrightarrow> i \<le> length a"
    using str_find_first[OF assms, of "length a"] occurs_take_drop[of s a sp b]
    by (meson not_le_imp_less)
qed

lemma parse_nfconfig_ok:
  "\<forall>l\<in>set ls. bytes_decode l \<noteq> Inl UnicodeDecodeError \<Longrightarrow>
   \<exists>cfg. parse_nfconfig ls c = Inr cfg \<and>
         map_of cfg = map_of c ++ map_of (rev (List.map_filter line_pair ls))"
proof (induction ls arbitrary: c)
  case Nil
  then show ?case by (simp add: List.map_filter_simps)
next
  case (Cons l ls)
  from Cons.prems bytes_decode_cases[of l] obtain ul where ul: "bytes_decode l = Inr ul" by auto
  from Cons.prems have rest: "\<forall>l\<in>set ls. bytes_decode l \<noteq> Inl UnicodeDecodeError" by simp
  show ?case
  proof (cases "str_find (ascii '' = '') ul")
    case None
    then have lp: "line_pair l = None" by (simp add: line_pair_def ul)
    from None have "parse_nfconfig (l # ls) c = parse_nfconfig ls c"
      by (simp add: ul str_split1_def)
    with Cons.IH[OF rest, of c] lp show ?thesis by (simp add: List.map_filter_simps)
  next
    case (Some i)
    let ?k = "take i ul" and ?v = "drop (i + length (ascii '' = '')) ul"
    from Some have lp: "line_pair l = Some (?k, ?v)" by (simp add: line_pair_def ul)
    from Some have "parse_nfconfig (l # ls) c = parse_nfconfig ls (AList.update ?k ?v c)"
      by (simp add: ul str_split1_def)
    moreover from Cons.IH[OF rest, of "AList.update ?k ?v c"] obtain cfg where
      cfg: "parse_nfconfig ls (AList.update ?k ?v c) = Inr cfg"
           "map_of cfg = map_of (AList.update ?k ?v c) ++ map_of (rev (List.map_filter line_pair ls))"
      by blast
    ultimately show ?thesis using lp
      by (simp add: List.map_filter_simps update_conv' map_add_def fun_eq_iff split: option.splits)
  qed
qed

lemma parse_nfconfig_bad:
  "\<exists>l\<in>set ls. bytes_decode l = Inl UnicodeDecodeError \<Longrightarrow> parse_nfconfig ls c = Inl UnicodeDecodeError"
proof (induction ls arbitrary: c)
  case Nil
  then show ?case by simp
next
  case (Cons l ls)
  show ?case
  proof (cases "bytes_decode l")
    case (Inl e)
    with bytes_decode_cases[of l] show ?thesis by simp
  next
    case (Inr ul)
    with Cons.prems have "\<exists>l\<in>set ls. bytes_decode l = Inl UnicodeDecodeError" by auto
    from Cons.IH[OF this] Inr show ?thesis by (simp split: list.splits)
  qed
qed

section \<open>The steps of the function\<close>

lemma build_cache_basedir_cases:
  assumes "build_cache_basedir h w = (r, w1)"
  obtains
    (nohome) "\<not> os_path_isdir w h" "r = Inr None" "w1 = w"
  | (present) "os_path_isdir w h" "os_path_isdir w (os_path_join h (ascii ''nf-core''))"
      "r = Inr (Some (os_path_join h (ascii ''nf-core'')))" "w1 = w"
  | (made) "os_path_isdir w h" "deny_mkdir w (os_path_join h (ascii ''nf-core'')) = None"
      "fs w (os_path_join h (ascii ''nf-core'')) = None"
      "r = Inr (Some (os_path_join h (ascii ''nf-core'')))"
      "w1 = w\<lparr>fs := (fs w)(os_path_join h (ascii ''nf-core'') \<mapsto> Dir),
              trace := trace w @ [MkDir (os_path_join h (ascii ''nf-core''))]\<rparr>"
  | (refused) e where "os_path_isdir w h" "\<not> os_path_isdir w (os_path_join h (ascii ''nf-core''))"
      "deny_mkdir w (os_path_join h (ascii ''nf-core'')) = Some e \<or>
       (fs w (os_path_join h (ascii ''nf-core'')) \<noteq> None \<and> e = EEXIST)"
      "r = Inl (OSError e)"
      "w1 = w\<lparr>trace := trace w @ [MkDir (os_path_join h (ascii ''nf-core''))]\<rparr>"
  using assms
  unfolding build_cache_basedir_def os_mkdir_def log_event_def Let_def
  by (auto split: if_splits option.splits simp: os_path_isdir_def)

lemma load_cache_cases:
  assumes "load_cache lib b fn w = (r, w2)"
  obtains
    (nopath) "b = None \<or> fn = None \<or> b = Some [] \<or> fn = Some []" "r = Inr (Miss None)" "w2 = w"
  | (miss) bd f where "b = Some bd" "fn = Some f" "bd \<noteq> []" "f \<noteq> []"
      "\<not> os_path_isfile w (os_path_join bd f)"
      "r = Inr (Miss (Some (os_path_join bd f)))"
      "w2 = w\<lparr>trace := trace w @ [CacheProbe (os_path_join bd f)]\<rparr>"
  | (found) bd f where "b = Some bd" "fn = Some f" "bd \<noteq> []" "f \<noteq> []"
      "os_path_isfile w (os_path_join bd f)"
      "r = (case open_read w (os_path_join bd f) of
              Inl e \<Rightarrow> Inl e
            | Inr raw \<Rightarrow> (case json_load lib raw of Inl e \<Rightarrow> Inl e | Inr c \<Rightarrow> Inr (Hit c)))"
      "w2 = w\<lparr>trace := trace w @ [CacheProbe (os_path_join bd f), CacheLoad (os_path_join bd f)]\<rparr>"
proof (cases "\<exists>bd f. b = Some bd \<and> fn = Some f \<and> bd \<noteq> [] \<and> f \<noteq> []")
  case False
  then have "load_cache lib b fn w = (Inr (Miss None), w)"
    by (cases b; cases fn) (auto simp: load_cache_def)
  moreover from False have "b = None \<or> fn = None \<or> b = Some [] \<or> fn = Some []"
    by (cases b; cases fn) auto
  ultimately show ?thesis using assms nopath by simp
next
  case True
  then obtain bd f where bf: "b = Some bd" "fn = Some f" "bd \<noteq> []" "f \<noteq> []" by blast
  show ?thesis
  proof (cases "os_path_isfile w (os_path_join bd f)")
    case False
    with bf have "load_cache lib b fn w =
        (Inr (Miss (Some (os_path_join bd f))),
         w\<lparr>trace := trace w @ [CacheProbe (os_path_join bd f)]\<rparr>)"
      by (simp add: load_cache_def log_event_def Let_def)
    with assms bf False show ?thesis using miss by simp
  next
    case True
    with bf have "load_cache lib b fn w =
        ((case open_read w (os_path_join bd f) of
              Inl e \<Rightarrow> Inl e
            | Inr raw \<Rightarrow> (case json_load lib raw of Inl e \<Rightarrow> Inl e | Inr c \<Rightarrow> Inr (Hit c))),
         w\<lparr>trace := trace w @ [CacheProbe (os_path_join bd f), CacheLoad (os_path_join bd f)]\<rparr>)"
      by (simp add: load_cache_def log_event_def Let_def split: sum.splits)
    with assms bf True show ?thesis using found by simp
  qed
qed

lemma nextflow_config_eq:
  "nextflow_config wd c w =
     ((case subprocess w (nextflow_argv wd) of
         RaisesOSError e \<Rightarrow>
           if e = ENOENT then Inl (AssertionError [S msg_not_installed]) else Inr c
       | CalledProcessError rc out \<Rightarrow> Inl (AssertionError [S msg_nonzero, I rc, B out])
       | Stdout raw \<Rightarrow> parse_nfconfig (bytes_splitlines raw) c),
      w\<lparr>trace := trace w @ [RunTool (nextflow_argv wd)]\<rparr>)"
  unfolding nextflow_config_def log_event_def Let_def
  by (auto split: proc_result.splits)

lemma scrape_main_nf_world:
  "snd (scrape_main_nf wd c w) = w\<lparr>trace := trace w @ [Scrape (os_path_join wd (ascii ''main.nf''))]\<rparr>"
  unfolding scrape_main_nf_def log_event_def Let_def
  by (auto split: sum.splits)

lemma save_cache_cases:
  assumes "save_cache lib cp c w = (r, w5)"
  obtains
    (nopath) "cp = None \<or> cp = Some []" "r = Inr ()" "w5 = w"
  | (written) p where "cp = Some p" "p \<noteq> []" "deny_write w p = None" "fs w p \<noteq> Some Dir"
      "r = Inr ()"
      "w5 = w\<lparr>fs := (fs w)(p \<mapsto> File (json_dump lib c)), trace := trace w @ [CacheSave p]\<rparr>"
  | (refused) p e where "cp = Some p" "p \<noteq> []"
      "deny_write w p = Some e \<or> (fs w p = Some Dir \<and> e = EISDIR)"
      "r = Inl (OSError e)"
      "w5 = w\<lparr>trace := trace w @ [CacheSave p]\<rparr>"
  using assms
  unfolding save_cache_def open_write_def log_event_def Let_def
  by (auto split: if_splits option.splits node.splits)

lemma fetch_wf_config_cases:
  assumes "fetch_wf_config lib wd w = (r, w')"
  obtains
    (home_error) e where "nxf_home_dir w = Inl e" "r = Inl e" "w' = w"
  | (mkdir_error) h e where "nxf_home_dir w = Inr h" "build_cache_basedir h w = (Inl e, w')" "r = Inl e"
  | (hash_error) h b e where "nxf_home_dir w = Inr h" "build_cache_basedir h w = (Inr b, w')"
      "cache_filename lib wd w' = Inl e" "r = Inl e"
  | (load_error) h b w1 fn e where "nxf_home_dir w = Inr h" "build_cache_basedir h w = (Inr b, w1)"
      "cache_filename lib wd w1 = Inr fn" "load_cache lib b fn w1 = (Inl e, w')" "r = Inl e"
  | (hit) h b w1 fn c where "nxf_home_dir w = Inr h" "build_cache_basedir h w = (Inr b, w1)"
      "cache_filename lib wd w1 = Inr fn" "load_cache lib b fn w1 = (Inr (Hit c), w')" "r = Inr c"
  | (tool_error) h b w1 fn cp w2 e where "nxf_home_dir w = Inr h"
      "build_cache_basedir h w = (Inr b, w1)" "cache_filename lib wd w1 = Inr fn"
      "load_cache lib b fn w1 = (Inr (Miss cp), w2)"
      "nextflow_config wd [] w2 = (Inl e, w')" "r = Inl e"
  | (scrape_error) h b w1 fn cp w2 c w3 e where "nxf_home_dir w = Inr h"
      "build_cache_basedir h w = (Inr b, w1)" "cache_filename lib wd w1 = Inr fn"
      "load_cache lib b fn w1 = (Inr (Miss cp), w2)"
      "nextflow_config wd [] w2 = (Inr c, w3)"
      "scrape_main_nf wd c w3 = (Inl e, w')" "r = Inl e"
  | (saved) h b w1 fn cp w2 c w3 c' w4 u where "nxf_home_dir w = Inr h"
      "build_cache_basedir h w = (Inr b, w1)" "cache_filename lib wd w1 = Inr fn"
      "load_cache lib b fn w1 = (Inr (Miss cp), w2)"
      "nextflow_config wd [] w2 = (Inr c, w3)"
      "scrape_main_nf wd c w3 = (Inr c', w4)"
      "save_cache lib cp c' w4 = (u, w')"
      "r = (case u of Inl e \<Rightarrow> Inl e | Inr x \<Rightarrow> Inr c')"
  using assms
  unfolding fetch_wf_config_def
  by (auto split: sum.splits prod.splits lookup.splits)

section \<open>The scan, the tracked files and the name of the cache file\<close>

lemma fold_scrape_line:
  "map_of (fold scrape_line ls c) k =
     (if k \<in> set (List.map_filter match_param ls) then Some (ascii ''false'') else map_of c k)"
proof (induction ls arbitrary: c)
  case Nil
  then show ?case by (simp add: List.map_filter_simps)
next
  case (Cons l ls)
  show ?case
  proof (cases "match_param l")
    case None
    with Cons.IH[of c] show ?thesis
      by (simp add: scrape_line_def List.map_filter_simps)
  next
    case (Some n)
    with Cons.IH[of "AList.update n (ascii ''false'') c"] show ?thesis
      by (simp add: scrape_line_def List.map_filter_simps update_conv')
  qed
qed

lemma scrape_main_nf_eq:
  "scrape_main_nf wd c w =
     ((case open_read w (os_path_join wd (ascii ''main.nf'')) of
         Inl e \<Rightarrow> if e = OSError ENOENT then Inr c else Inl e
       | Inr raw \<Rightarrow>
           (case bytes_decode raw of
              Inl e \<Rightarrow> Inl e
            | Inr text \<Rightarrow> Inr (fold scrape_line (text_lines text) c))),
      w\<lparr>trace := trace w @ [Scrape (os_path_join wd (ascii ''main.nf''))]\<rparr>)"
  unfolding scrape_main_nf_def log_event_def Let_def
  by (simp split: sum.splits)

lemma open_read_cases:
  "(\<exists>c. open_read w p = Inr c) \<or> (\<exists>e. open_read w p = Inl (OSError e))"
  by (simp add: open_read_def split: option.splits node.splits if_splits)

lemma scrape_main_nf_map:
  assumes "fst (scrape_main_nf wd c w) = Inr c'"
  shows "map_of c' k =
     (if k \<in> set (scan_names wd w) then Some (ascii ''false'') else map_of c k)"
proof (cases "open_read w (os_path_join wd (ascii ''main.nf''))")
  case (Inl e)
  with assms show ?thesis
    by (simp add: scrape_main_nf_eq scan_names_def split: if_splits)
next
  case (Inr raw)
  show ?thesis
  proof (cases "bytes_decode raw")
    case (Inl e)
    with Inr assms show ?thesis by (simp add: scrape_main_nf_eq)
  next
    case inr: (Inr t)
    with Inr assms have "c' = fold scrape_line (text_lines t) c"
      by (simp add: scrape_main_nf_eq)
    with Inr inr show ?thesis
      by (simp add: scan_names_def fold_scrape_line)
  qed
qed

lemma scrape_main_nf_raises:
  assumes "fst (scrape_main_nf wd c w) = Inl x"
  shows "x = UnicodeDecodeError \<or> (\<exists>e. x = OSError e)"
proof (cases "open_read w (os_path_join wd (ascii ''main.nf''))")
  case (Inl e)
  with assms open_read_cases[of w "os_path_join wd (ascii ''main.nf'')"] show ?thesis
    by (auto simp: scrape_main_nf_eq split: if_splits)
next
  case (Inr raw)
  with assms bytes_decode_cases[of raw] show ?thesis
    by (auto simp: scrape_main_nf_eq)
qed

lemma nf_core_neq_main_nf:
  "os_path_join h (ascii ''nf-core'') \<noteq> os_path_join wd (ascii ''main.nf'')"
proof
  assume "os_path_join h (ascii ''nf-core'') = os_path_join wd (ascii ''main.nf'')"
  then have "last (os_path_join h (ascii ''nf-core'')) = last (os_path_join wd (ascii ''main.nf''))"
    by simp
  then show False by (simp add: last_os_path_join ascii_def)
qed

lemma nf_core_neq_nextflow_config:
  "os_path_join h (ascii ''nf-core'') \<noteq> os_path_join wd (ascii ''nextflow.config'')"
proof
  assume "os_path_join h (ascii ''nf-core'') = os_path_join wd (ascii ''nextflow.config'')"
  then have "last (os_path_join h (ascii ''nf-core'')) =
      last (os_path_join wd (ascii ''nextflow.config''))"
    by simp
  then show False by (simp add: last_os_path_join ascii_def)
qed

text \<open>What the scan and the fingerprint read is the same in two worlds that agree on the tracked files.\<close>

lemma open_read_cong:
  assumes "fs w1 p = fs w p" and "unreadable w1 = unreadable w"
      and "os_path_isfile w1 = os_path_isfile w"
  shows "open_read w1 p = open_read w p"
  unfolding open_read_def assms by (rule refl)

lemma os_path_isfile_mkdir:
  assumes "fs w b = None"
  shows "os_path_isfile (w\<lparr>fs := (fs w)(b \<mapsto> Dir), trace := t\<rparr>) = os_path_isfile w"
proof
  fix q
  show "os_path_isfile (w\<lparr>fs := (fs w)(b \<mapsto> Dir), trace := t\<rparr>) q = os_path_isfile w q"
    using assms by (cases "q = b") (simp_all add: os_path_isfile_def)
qed

lemma os_path_isfile_trace [simp]: "os_path_isfile (w\<lparr>trace := t\<rparr>) = os_path_isfile w"
  by (rule ext) (simp add: os_path_isfile_def)

lemma open_read_trace [simp]: "open_read (w\<lparr>trace := t\<rparr>) p = open_read w p"
  by (rule open_read_cong) simp_all

lemma open_read_mkdir:
  assumes "fs w b = None" and "b \<noteq> p"
  shows "open_read (w\<lparr>fs := (fs w)(b \<mapsto> Dir), trace := t\<rparr>) p = open_read w p"
proof (rule open_read_cong)
  from assms(2) show "fs (w\<lparr>fs := (fs w)(b \<mapsto> Dir), trace := t\<rparr>) p = fs w p" by simp
  show "unreadable (w\<lparr>fs := (fs w)(b \<mapsto> Dir), trace := t\<rparr>) = unreadable w" by simp
  from assms(1)
  show "os_path_isfile (w\<lparr>fs := (fs w)(b \<mapsto> Dir), trace := t\<rparr>) = os_path_isfile w"
    by (rule os_path_isfile_mkdir)
qed

lemma scrape_main_nf_cong:
  assumes "open_read w1 (os_path_join wd (ascii ''main.nf''))
      = open_read w (os_path_join wd (ascii ''main.nf''))"
  shows "fst (scrape_main_nf wd c w1) = fst (scrape_main_nf wd c w)"
    and "scan_names wd w1 = scan_names wd w"
proof -
  show "fst (scrape_main_nf wd c w1) = fst (scrape_main_nf wd c w)"
    by (simp add: scrape_main_nf_eq assms)
  show "scan_names wd w1 = scan_names wd w"
    by (simp add: scan_names_def assms)
qed

lemma hash_files_cong:
  assumes "\<forall>fn\<in>set fns. open_read w1 (os_path_join wd fn) = open_read w (os_path_join wd fn)"
  shows "hash_files lib w1 wd fns acc = hash_files lib w wd fns acc"
  using assms
proof (induction fns arbitrary: acc)
  case Nil
  show ?case by simp
next
  case (Cons fn fns)
  then have eq: "open_read w1 (os_path_join wd fn) = open_read w (os_path_join wd fn)"
    and rest: "\<forall>fn\<in>set fns. open_read w1 (os_path_join wd fn) = open_read w (os_path_join wd fn)"
    by simp_all
  show ?case by (simp only: hash_files.simps eq Cons.IH[OF rest])
qed

lemma cache_filename_cong:
  assumes "\<forall>fn\<in>set tracked_files.
      open_read w1 (os_path_join wd fn) = open_read w (os_path_join wd fn)"
  shows "cache_filename lib wd w1 = cache_filename lib wd w"
proof -
  from assms
  have "hash_files lib w1 wd tracked_files [] = hash_files lib w wd tracked_files []"
    by (rule hash_files_cong)
  then show ?thesis by (simp add: cache_filename_def)
qed

lemma cache_filename_shape:
  assumes "cache_filename lib wd w = Inr (Some f)"
  shows "f \<noteq> [] \<and> take 1 f \<noteq> [47] \<and> last f = 110"
proof -
  from assms obtain x where f: "f = ascii ''wf-config-cache-'' @ x @ ascii ''.json''"
    by (auto simp: cache_filename_def Let_def split: sum.splits if_splits)
  have "last f = last (ascii ''.json'')"
    unfolding f by (simp add: ascii_def)
  moreover have "take 1 f = [119]"
    unfolding f by (simp add: ascii_def)
  ultimately show ?thesis by (auto simp: ascii_def)
qed

section \<open>A resolution that calls the tool\<close>

lemma nf_core_dir_nonempty: "nf_core_dir h \<noteq> []"
  by (simp add: nf_core_dir_def os_path_join_def ascii_def)

lemma nf_core_dir_neq_tracked:
  "fn \<in> set tracked_files \<Longrightarrow> nf_core_dir h \<noteq> os_path_join wd fn"
  using nf_core_neq_main_nf[of h wd] nf_core_neq_nextflow_config[of h wd]
  by (auto simp: tracked_files_def nf_core_dir_def)

lemma open_read_before_tool:
  assumes dir: "makes_dir w h \<Longrightarrow> fs w (nf_core_dir h) = None"
      and p: "nf_core_dir h \<noteq> p"
  shows "open_read (before_tool w h fn) p = open_read w p"
proof (cases "makes_dir w h")
  case True
  with dir have "fs w (nf_core_dir h) = None" by simp
  from open_read_mkdir[OF this p] True show ?thesis
    by (simp add: before_tool_def)
next
  case False
  have "open_read (before_tool w h fn) p = open_read w p"
  proof (rule open_read_cong)
    from False show "fs (before_tool w h fn) p = fs w p" by (simp add: before_tool_def)
    show "unreadable (before_tool w h fn) = unreadable w" by (simp add: before_tool_def)
    from False show "os_path_isfile (before_tool w h fn) = os_path_isfile w"
      by (simp add: before_tool_def os_path_isfile_def fun_eq_iff)
  qed
  then show ?thesis .
qed

lemma cache_path_neq_dir:
  assumes "cache_filename lib wd w = Inr fn" and "cache_path w h fn = Some p"
  shows "p \<noteq> nf_core_dir h" and "p \<noteq> []"
proof -
  from assms(2) obtain f where f: "fn = Some f" "p = os_path_join (nf_core_dir h) f"
    by (auto simp: cache_path_def split: if_splits)
  from cache_filename_shape[of lib wd w f] assms(1) f
  have sh: "f \<noteq> []" "take 1 f \<noteq> [47]" by simp_all
  from os_path_join_neq_left[OF sh] f show "p \<noteq> nf_core_dir h" by simp
  from sh f show "p \<noteq> []" by (simp add: os_path_join_def)
qed

lemma fetch_wf_config_fresh:
  assumes home: "nxf_home_dir w = Inr h"
      and dir: "makes_dir w h \<Longrightarrow>
                  deny_mkdir w (nf_core_dir h) = None \<and> fs w (nf_core_dir h) = None"
      and name: "cache_filename lib wd w = Inr fn"
      and absent: "\<And>p. cache_path w h fn = Some p \<Longrightarrow> \<not> os_path_isfile w p"
  shows "fetch_wf_config lib wd w =
     (case nextflow_config wd [] (before_tool w h fn) of
        (Inl e, w3) \<Rightarrow> (Inl e, w3)
      | (Inr c, w3) \<Rightarrow>
     (case scrape_main_nf wd c w3 of
        (Inl e, w4) \<Rightarrow> (Inl e, w4)
      | (Inr c', w4) \<Rightarrow>
     (case save_cache lib (cache_path w h fn) c' w4 of
        (Inl e, w5) \<Rightarrow> (Inl e, w5)
      | (Inr u, w5) \<Rightarrow> (Inr c', w5))))"
proof -
  define B where "B = nf_core_dir h"
  define w1 where "w1 = (if makes_dir w h
      then w\<lparr>fs := (fs w)(B \<mapsto> Dir), trace := trace w @ [MkDir B]\<rparr> else w)"
  define bo where "bo = (if os_path_isdir w h then Some B else None)"
  have build: "build_cache_basedir h w = (Inr bo, w1)"
  proof (cases "makes_dir w h")
    case True
    with dir have "deny_mkdir w B = None" "fs w B = None" by (simp_all add: B_def)
    with True show ?thesis
      by (simp add: build_cache_basedir_def os_mkdir_def log_event_def Let_def makes_dir_def
          nf_core_dir_def w1_def bo_def B_def)
  next
    case False
    then show ?thesis
      by (simp add: build_cache_basedir_def Let_def makes_dir_def nf_core_dir_def w1_def
          bo_def B_def)
  qed
  have isfile1: "os_path_isfile w1 = os_path_isfile w"
  proof (cases "makes_dir w h")
    case True
    with dir have "fs w B = None" by (simp add: B_def)
    from os_path_isfile_mkdir[OF this] True show ?thesis by (simp add: w1_def)
  next
    case False
    then show ?thesis by (simp add: w1_def)
  qed
  have read1: "open_read w1 (os_path_join wd f) = open_read w (os_path_join wd f)"
    if "f \<in> set tracked_files" for f
  proof (cases "makes_dir w h")
    case True
    with dir have "fs w B = None" by (simp add: B_def)
    moreover from nf_core_dir_neq_tracked[OF that] have "B \<noteq> os_path_join wd f"
      by (simp add: B_def)
    ultimately have "open_read (w\<lparr>fs := (fs w)(B \<mapsto> Dir), trace := trace w @ [MkDir B]\<rparr>)
        (os_path_join wd f) = open_read w (os_path_join wd f)"
      by (rule open_read_mkdir)
    with True show ?thesis by (simp add: w1_def)
  next
    case False
    then show ?thesis by (simp add: w1_def)
  qed
  have "cache_filename lib wd w1 = cache_filename lib wd w"
    by (rule cache_filename_cong) (simp add: read1)
  with name have name1: "cache_filename lib wd w1 = Inr fn" by simp
  have w2: "before_tool w h fn =
      w1\<lparr>trace := trace w1 @ (case cache_path w h fn of Some p \<Rightarrow> [CacheProbe p] | None \<Rightarrow> [])\<rparr>"
    by (simp add: before_tool_def w1_def B_def)
  have load: "load_cache lib bo fn w1 = (Inr (Miss (cache_path w h fn)), before_tool w h fn)"
  proof (cases "cache_path w h fn")
    case None
    then have "bo = None \<or> fn = None"
      by (auto simp: cache_path_def bo_def split: if_splits)
    then have "load_cache lib bo fn w1 = (Inr (Miss None), w1)"
      by (cases bo; cases fn) (auto simp: load_cache_def)
    with None w2 show ?thesis by simp
  next
    case (Some p)
    then obtain f where f: "fn = Some f" "p = os_path_join B f" "bo = Some B"
      by (auto simp: cache_path_def bo_def B_def split: if_splits)
    from cache_filename_shape[of lib wd w f] name f have "f \<noteq> []" by simp
    moreover have "B \<noteq> []" by (simp add: B_def nf_core_dir_nonempty)
    moreover from absent[OF Some] isfile1 f have "\<not> os_path_isfile w1 (os_path_join B f)"
      by simp
    ultimately have "load_cache lib bo fn w1 =
        (Inr (Miss (Some p)), w1\<lparr>trace := trace w1 @ [CacheProbe p]\<rparr>)"
      using f by (simp add: load_cache_def log_event_def Let_def)
    with Some w2 show ?thesis by simp
  qed
  show ?thesis
    unfolding fetch_wf_config_def
    by (simp add: home build name1 load)
qed

lemma open_write_eq:
  "open_write p d w =
     (case deny_write w p of
        Some e \<Rightarrow> (Inl (OSError e), w)
      | None \<Rightarrow>
          if fs w p = Some Dir then (Inl (OSError EISDIR), w)
          else (Inr (), w\<lparr>fs := (fs w)(p \<mapsto> File d)\<rparr>))"
  by (simp add: open_write_def split: option.splits node.splits)

lemma fetch_wf_config_fresh_run:
  assumes home: "nxf_home_dir w = Inr h"
      and dir: "makes_dir w h \<Longrightarrow>
                  deny_mkdir w (nf_core_dir h) = None \<and> fs w (nf_core_dir h) = None"
      and name: "cache_filename lib wd w = Inr fn"
      and absent: "\<And>p. cache_path w h fn = Some p \<Longrightarrow> \<not> os_path_isfile w p"
  shows "fetch_wf_config lib wd w =
     (case fst (nextflow_config wd [] w) of
        Inl e \<Rightarrow> (Inl e, (before_tool w h fn)
                   \<lparr>trace := trace (before_tool w h fn) @ [RunTool (nextflow_argv wd)]\<rparr>)
      | Inr c \<Rightarrow>
     (case fst (scrape_main_nf wd c w) of
        Inl e \<Rightarrow> (Inl e, (before_tool w h fn)
                   \<lparr>trace := trace (before_tool w h fn) @
                      [RunTool (nextflow_argv wd), Scrape (os_path_join wd (ascii ''main.nf''))]\<rparr>)
      | Inr c' \<Rightarrow>
     (case cache_path w h fn of
        None \<Rightarrow> (Inr c', (before_tool w h fn)
                   \<lparr>trace := trace (before_tool w h fn) @
                      [RunTool (nextflow_argv wd), Scrape (os_path_join wd (ascii ''main.nf''))]\<rparr>)
      | Some p \<Rightarrow>
     (case fst (open_write p (json_dump lib c') w) of
        Inl e \<Rightarrow> (Inl e, (before_tool w h fn)
                   \<lparr>trace := trace (before_tool w h fn) @
                      [RunTool (nextflow_argv wd), Scrape (os_path_join wd (ascii ''main.nf'')),
                       CacheSave p]\<rparr>)
      | Inr u \<Rightarrow> (Inr c', (before_tool w h fn)
                   \<lparr>fs := (fs (before_tool w h fn))(p \<mapsto> File (json_dump lib c')),
                    trace := trace (before_tool w h fn) @
                      [RunTool (nextflow_argv wd), Scrape (os_path_join wd (ascii ''main.nf'')),
                       CacheSave p]\<rparr>)))))"
proof -
  define w2 where "w2 = before_tool w h fn"
  define w3 where "w3 = w2\<lparr>trace := trace w2 @ [RunTool (nextflow_argv wd)]\<rparr>"
  define main where "main = os_path_join wd (ascii ''main.nf'')"
  define w4 where "w4 = w3\<lparr>trace := trace w3 @ [Scrape main]\<rparr>"
  have sub: "subprocess w2 = subprocess w" and deny: "deny_write w2 = deny_write w"
    by (simp_all add: w2_def before_tool_def)
  have nc: "nextflow_config wd [] w2 = (fst (nextflow_config wd [] w), w3)"
    by (simp add: nextflow_config_eq sub w3_def)
  from dir have dir': "makes_dir w h \<Longrightarrow> fs w (nf_core_dir h) = None" by simp
  have "open_read w2 main = open_read w main"
    unfolding w2_def main_def
    by (rule open_read_before_tool[OF dir']) (simp_all add: nf_core_dir_def nf_core_neq_main_nf)
  then have rd: "open_read w3 main = open_read w main"
    by (simp add: w3_def)
  have sc: "scrape_main_nf wd c w3 = (fst (scrape_main_nf wd c w), w4)" for c
    using rd by (simp add: scrape_main_nf_eq w4_def main_def)
  have sv_none: "save_cache lib None c' w4 = (Inr (), w4)" for c'
    by (simp add: save_cache_def)
  have sv_some: "save_cache lib (Some p) c' w4 =
      (case fst (open_write p (json_dump lib c') w) of
         Inl e \<Rightarrow> (Inl e, w4\<lparr>trace := trace w4 @ [CacheSave p]\<rparr>)
       | Inr u \<Rightarrow> (Inr (), w4\<lparr>fs := (fs w4)(p \<mapsto> File (json_dump lib c')),
                             trace := trace w4 @ [CacheSave p]\<rparr>))"
    if p: "cache_path w h fn = Some p" for p c'
  proof -
    from cache_path_neq_dir[OF name p] have ne: "p \<noteq> nf_core_dir h" "p \<noteq> []" by simp_all
    then have fsp: "fs w4 p = fs w p"
      by (simp add: w4_def w3_def w2_def before_tool_def)
    have dw: "deny_write w4 p = deny_write w p"
      by (simp add: w4_def w3_def deny)
    from ne fsp dw show ?thesis
      by (simp add: save_cache_def open_write_eq log_event_def split: option.splits)
  qed
  have eq: "fetch_wf_config lib wd w =
     (case nextflow_config wd [] w2 of
        (Inl e, w3) \<Rightarrow> (Inl e, w3)
      | (Inr c, w3) \<Rightarrow>
     (case scrape_main_nf wd c w3 of
        (Inl e, w4) \<Rightarrow> (Inl e, w4)
      | (Inr c', w4) \<Rightarrow>
     (case save_cache lib (cache_path w h fn) c' w4 of
        (Inl e, w5) \<Rightarrow> (Inl e, w5)
      | (Inr u, w5) \<Rightarrow> (Inr c', w5))))"
    unfolding w2_def by (rule fetch_wf_config_fresh[OF home dir name absent])
  show ?thesis
  proof (cases "fst (nextflow_config wd [] w)")
    case (Inl e)
    with eq nc show ?thesis by (simp add: w3_def w2_def)
  next
    case c: (Inr c)
    show ?thesis
    proof (cases "fst (scrape_main_nf wd c w)")
      case (Inl e)
      with eq nc c sc[of c] show ?thesis by (simp add: w4_def w3_def w2_def main_def)
    next
      case c': (Inr c')
      show ?thesis
      proof (cases "cache_path w h fn")
        case None
        with eq nc c sc[of c] c' sv_none[of c'] show ?thesis
          by (simp add: w4_def w3_def w2_def main_def)
      next
        case (Some p)
        show ?thesis
        proof (cases "fst (open_write p (json_dump lib c') w)")
          case (Inl e)
          with eq nc c sc[of c] c' Some sv_some[OF Some, of c'] show ?thesis
            by (simp add: w4_def w3_def w2_def main_def)
        next
          case (Inr u)
          with eq nc c sc[of c] c' Some sv_some[OF Some, of c'] show ?thesis
            by (simp add: w4_def w3_def w2_def main_def)
        qed
      qed
    qed
  qed
qed

section \<open>The parsing of the tool's output\<close>

text \<open>
  Claim C8, as amended. After a successful call of the tool the configuration is the
  result of \<open>parse_nfconfig\<close> on the lines of the captured output. When every line is
  valid UTF-8 the parsing returns a mapping, in which a key has the value of the last line
  that gives this key (\<open>map_of\<close> of the reversed list of pairs finds the last pair first);
  a line contributes a pair exactly when it contains \<^verbatim>\<open>" = "\<close>, and then the key is the
  text before the first occurrence and the value all the text after it; the other lines
  are skipped. When some line is not valid UTF-8 the parsing raises
  \<^verbatim>\<open>UnicodeDecodeError\<close>.
\<close>

theorem parse_nfconfig_last_write_wins:
  "(subprocess w (nextflow_argv wd) = Stdout out \<longrightarrow>
      fst (nextflow_config wd [] w) = parse_nfconfig (bytes_splitlines out) [])
   \<and> (if \<forall>l\<in>set (bytes_splitlines out). bytes_decode l \<noteq> Inl UnicodeDecodeError
       then \<exists>cfg. parse_nfconfig (bytes_splitlines out) [] = Inr cfg \<and>
                  map_of cfg = map_of (rev (List.map_filter line_pair (bytes_splitlines out)))
       else parse_nfconfig (bytes_splitlines out) [] = Inl UnicodeDecodeError)
   \<and> (\<forall>l ul. bytes_decode l = Inr ul \<longrightarrow>
         (line_pair l = None \<longleftrightarrow> (\<nexists>a b. ul = a @ ascii '' = '' @ b)) \<and>
         (\<forall>k v. line_pair l = Some (k, v) \<longrightarrow>
            ul = k @ ascii '' = '' @ v \<and>
            (\<forall>a b. ul = a @ ascii '' = '' @ b \<longrightarrow> length k \<le> length a)))"
proof (intro conjI allI impI)
  assume "subprocess w (nextflow_argv wd) = Stdout out"
  then show "fst (nextflow_config wd [] w) = parse_nfconfig (bytes_splitlines out) []"
    by (simp add: nextflow_config_eq)
next
  show "if \<forall>l\<in>set (bytes_splitlines out). bytes_decode l \<noteq> Inl UnicodeDecodeError
       then \<exists>cfg. parse_nfconfig (bytes_splitlines out) [] = Inr cfg \<and>
                  map_of cfg = map_of (rev (List.map_filter line_pair (bytes_splitlines out)))
       else parse_nfconfig (bytes_splitlines out) [] = Inl UnicodeDecodeError"
    using parse_nfconfig_ok[of "bytes_splitlines out" "[]"]
      parse_nfconfig_bad[of "bytes_splitlines out" "[]"]
    by auto
next
  fix l ul
  assume ul: "bytes_decode l = Inr ul"
  show "(line_pair l = None) = (\<nexists>a b. ul = a @ ascii '' = '' @ b)"
  proof -
    have "(line_pair l = None) = (str_find (ascii '' = '') ul = None)"
      by (simp add: line_pair_def ul split: option.splits)
    then show ?thesis using str_find_None_iff[of "ascii '' = ''" ul] by simp
  qed
next
  fix l ul k v
  assume ul: "bytes_decode l = Inr ul" and kv: "line_pair l = Some (k, v)"
  then obtain i where i: "str_find (ascii '' = '') ul = Some i" "k = take i ul"
      "v = drop (i + length (ascii '' = '')) ul"
    by (auto simp: line_pair_def split: option.splits)
  from str_find_split(1)[OF i(1)] i show "ul = k @ ascii '' = '' @ v" by simp
  fix a b
  assume "ul = a @ ascii '' = '' @ b"
  from str_find_split(2)[OF i(1) this] str_find_Some[OF i(1)] i(2)
  show "length k \<le> length a" by simp
qed

text \<open>
  The theorem at the output \<^verbatim>\<open>foo = bar\ngarbage\<close>, which gives \<^verbatim>\<open>{"foo": "bar"}\<close>,
  and at \<^verbatim>\<open>a = 1\na = 2\<close>, where the later line wins.
\<close>

theorem parse_nfconfig_last_write_wins_witness:
  "parse_nfconfig (bytes_splitlines (''foo = bar'' @ [CHR 0x0A] @ ''garbage'')) []
     = Inr [(ascii ''foo'', ascii ''bar'')]
   \<and> (\<exists>cfg. parse_nfconfig (bytes_splitlines (''foo = bar'' @ [CHR 0x0A] @ ''garbage'')) []
               = Inr cfg
            \<and> map_of cfg = map_of (rev (List.map_filter line_pair
                (bytes_splitlines (''foo = bar'' @ [CHR 0x0A] @ ''garbage'')))))
   \<and> line_pair ''garbage'' = None
   \<and> line_pair ''foo = bar'' = Some (ascii ''foo'', ascii ''bar'')
   \<and> parse_nfconfig (bytes_splitlines (''a = 1'' @ [CHR 0x0A] @ ''a = 2'')) []
     = Inr [(ascii ''a'', ascii ''2'')]"
proof -
  let ?out = "''foo = bar'' @ [CHR 0x0A] @ ''garbage''"
  have dec: "\<forall>l\<in>set (bytes_splitlines ?out). bytes_decode l \<noteq> Inl UnicodeDecodeError"
    by code_simp
  have "if \<forall>l\<in>set (bytes_splitlines ?out). bytes_decode l \<noteq> Inl UnicodeDecodeError
        then \<exists>cfg. parse_nfconfig (bytes_splitlines ?out) [] = Inr cfg \<and>
               map_of cfg = map_of (rev (List.map_filter line_pair (bytes_splitlines ?out)))
        else parse_nfconfig (bytes_splitlines ?out) [] = Inl UnicodeDecodeError"
    using parse_nfconfig_last_write_wins[of world0 "ascii ''/wf''" ?out] by blast
  with dec have general:
    "\<exists>cfg. parse_nfconfig (bytes_splitlines ?out) [] = Inr cfg \<and>
       map_of cfg = map_of (rev (List.map_filter line_pair (bytes_splitlines ?out)))"
    by (simp only: if_True)
  have one: "parse_nfconfig (bytes_splitlines ?out) [] = Inr [(ascii ''foo'', ascii ''bar'')]"
    by code_simp
  have skipped: "line_pair ''garbage'' = None"
    by code_simp
  have kept: "line_pair ''foo = bar'' = Some (ascii ''foo'', ascii ''bar'')"
    by code_simp
  have last_wins: "parse_nfconfig (bytes_splitlines (''a = 1'' @ [CHR 0x0A] @ ''a = 2'')) []
     = Inr [(ascii ''a'', ascii ''2'')]"
    by code_simp
  from one general skipped kept last_wins show ?thesis by blast
qed

text \<open>
  Claim C8 as stated fails: the line \<^verbatim>\<open>b"\xff"\<close> does not contain the separator, and
  it is not skipped: decoding it raises \<^verbatim>\<open>UnicodeDecodeError\<close>, which leaves
  \<^verbatim>\<open>fetch_wf_config\<close>.
\<close>

theorem parse_nfconfig_permissive_counterexample:
  "subprocess world_bad_output (nextflow_argv (ascii ''/wf'')) = Stdout [CHR 0xFF]
   \<and> bytes_splitlines [CHR 0xFF] = [[CHR 0xFF]]
   \<and> parse_nfconfig (bytes_splitlines [CHR 0xFF]) [] = Inl UnicodeDecodeError
   \<and> fst (fetch_wf_config lib0 (ascii ''/wf'') world_bad_output) = Inl UnicodeDecodeError"
proof -
  have "subprocess world_bad_output (nextflow_argv (ascii ''/wf'')) = Stdout [CHR 0xFF]"
    by (simp add: world_bad_output_def)
  moreover have "bytes_splitlines [CHR 0xFF] = [[CHR 0xFF]]"
    by code_simp
  moreover have "parse_nfconfig (bytes_splitlines [CHR 0xFF]) [] = Inl UnicodeDecodeError"
    by code_simp
  moreover have "fst (fetch_wf_config lib0 (ascii ''/wf'') world_bad_output)
      = Inl UnicodeDecodeError"
    by code_simp
  ultimately show ?thesis by blast
qed

section \<open>The tool is not installed\<close>

text \<open>
  Claim C7, as amended. Take a run that gets as far as the call of the tool: \<^verbatim>\<open>HOME\<close>
  or \<^verbatim>\<open>NXF_HOME\<close> gives the home directory \<open>h\<close>, the cache directory is there or can be
  made, the tracked files give the file name \<open>fn\<close> without an error, and no cache file
  is found under that name. When the executable is not found (\<^verbatim>\<open>OSError\<close> with errno
  \<^verbatim>\<open>ENOENT\<close>), \<^verbatim>\<open>fetch_wf_config\<close> raises the \<^verbatim>\<open>AssertionError\<close> whose message says
  that Nextflow is required. The effects are, in this order: the cache directory is
  made when it was missing, the cache file is looked for when there is a cache path, the
  tool is called; nothing else happens, so no cache file is written. The file system is
  as before but for the cache directory, and every file is as it was.
\<close>

theorem tool_missing_raises_on_miss:
  assumes home: "nxf_home_dir w = Inr h"
      and dir: "makes_dir w h \<Longrightarrow>
                  deny_mkdir w (nf_core_dir h) = None \<and> fs w (nf_core_dir h) = None"
      and name: "cache_filename lib wd w = Inr fn"
      and absent: "\<And>p. cache_path w h fn = Some p \<Longrightarrow> \<not> os_path_isfile w p"
      and missing: "subprocess w (nextflow_argv wd) = RaisesOSError ENOENT"
  shows "fst (fetch_wf_config lib wd w) = Inl (AssertionError [S msg_not_installed])
       \<and> trace (snd (fetch_wf_config lib wd w)) =
           trace w @ (if makes_dir w h then [MkDir (nf_core_dir h)] else [])
             @ (case cache_path w h fn of Some p \<Rightarrow> [CacheProbe p] | None \<Rightarrow> [])
             @ [RunTool (nextflow_argv wd)]
       \<and> fs (snd (fetch_wf_config lib wd w)) =
           (if makes_dir w h then (fs w)(nf_core_dir h \<mapsto> Dir) else fs w)
       \<and> (\<forall>p c. fs (snd (fetch_wf_config lib wd w)) p = Some (File c)
                 \<longleftrightarrow> fs w p = Some (File c))"
proof -
  from missing have "fst (nextflow_config wd [] w) = Inl (AssertionError [S msg_not_installed])"
    by (simp add: nextflow_config_eq)
  with fetch_wf_config_fresh_run[OF home dir name absent]
  have run: "fetch_wf_config lib wd w =
      (Inl (AssertionError [S msg_not_installed]),
       (before_tool w h fn)\<lparr>trace := trace (before_tool w h fn) @ [RunTool (nextflow_argv wd)]\<rparr>)"
    by simp
  have files: "((if makes_dir w h then (fs w)(nf_core_dir h \<mapsto> Dir) else fs w) p = Some (File c))
      = (fs w p = Some (File c))" for p c
  proof (cases "makes_dir w h")
    case True
    with dir have "fs w (nf_core_dir h) = None" by simp
    with True show ?thesis by (cases "p = nf_core_dir h") simp_all
  next
    case False
    then show ?thesis by simp
  qed
  from run files show ?thesis
    by (simp add: before_tool_def)
qed

text \<open>
  The theorem in the world where the home directory exists, the cache directory does not,
  and \<^verbatim>\<open>nextflow\<close> is missing: the directory is made, the cache file is looked for, the
  tool is called, the error is raised.
\<close>

theorem tool_missing_raises_on_miss_witness:
  "nxf_home_dir world_home = Inr (ascii ''/home/u/.nextflow'')
   \<and> makes_dir world_home (ascii ''/home/u/.nextflow'')
   \<and> deny_mkdir world_home (nf_core_dir (ascii ''/home/u/.nextflow'')) = None
   \<and> fs world_home (nf_core_dir (ascii ''/home/u/.nextflow'')) = None
   \<and> cache_filename lib0 (ascii ''/wf'') world_home
       = Inr (Some (ascii ''wf-config-cache-4040404040404040404040404.json''))
   \<and> cache_path world_home (ascii ''/home/u/.nextflow'')
         (Some (ascii ''wf-config-cache-4040404040404040404040404.json''))
       = Some (ascii ''/home/u/.nextflow/nf-core/wf-config-cache-4040404040404040404040404.json'')
   \<and> \<not> os_path_isfile world_home
         (ascii ''/home/u/.nextflow/nf-core/wf-config-cache-4040404040404040404040404.json'')
   \<and> subprocess world_home (nextflow_argv (ascii ''/wf'')) = RaisesOSError ENOENT
   \<and> fst (fetch_wf_config lib0 (ascii ''/wf'') world_home)
       = Inl (AssertionError [S msg_not_installed])
   \<and> trace (snd (fetch_wf_config lib0 (ascii ''/wf'') world_home)) =
       [MkDir (ascii ''/home/u/.nextflow/nf-core''),
        CacheProbe
          (ascii ''/home/u/.nextflow/nf-core/wf-config-cache-4040404040404040404040404.json''),
        RunTool (nextflow_argv (ascii ''/wf''))]
   \<and> (\<forall>p c. fs (snd (fetch_wf_config lib0 (ascii ''/wf'') world_home)) p = Some (File c)
             \<longleftrightarrow> fs world_home p = Some (File c))"
proof -
  let ?h = "ascii ''/home/u/.nextflow''"
  let ?fn = "Some (ascii ''wf-config-cache-4040404040404040404040404.json'')"
  let ?p = "ascii ''/home/u/.nextflow/nf-core/wf-config-cache-4040404040404040404040404.json''"
  have h1: "nxf_home_dir world_home = Inr ?h"
    by code_simp
  have mk: "makes_dir world_home ?h"
    by code_simp
  have h2a: "deny_mkdir world_home (nf_core_dir ?h) = None"
    by code_simp
  have h2b: "fs world_home (nf_core_dir ?h) = None"
    by code_simp
  have h3: "cache_filename lib0 (ascii ''/wf'') world_home = Inr ?fn"
    by code_simp
  have cp: "cache_path world_home ?h ?fn = Some ?p"
    by code_simp
  have nofile: "\<not> os_path_isfile world_home ?p"
    by code_simp
  have h4: "\<not> os_path_isfile world_home p" if "cache_path world_home ?h ?fn = Some p" for p
    using that cp nofile by simp
  have h5: "subprocess world_home (nextflow_argv (ascii ''/wf'')) = RaisesOSError ENOENT"
    by code_simp
  have dirname: "nf_core_dir ?h = ascii ''/home/u/.nextflow/nf-core''"
    by code_simp
  have tr: "trace world_home = []"
    by code_simp
  from h2a h2b have h2: "deny_mkdir world_home (nf_core_dir ?h) = None
      \<and> fs world_home (nf_core_dir ?h) = None"
    by simp
  from tool_missing_raises_on_miss[OF h1 h2 h3 h4 h5] mk cp dirname tr h2b
  have "fst (fetch_wf_config lib0 (ascii ''/wf'') world_home)
          = Inl (AssertionError [S msg_not_installed])
      \<and> trace (snd (fetch_wf_config lib0 (ascii ''/wf'') world_home)) =
          [MkDir (ascii ''/home/u/.nextflow/nf-core''), CacheProbe ?p,
           RunTool (nextflow_argv (ascii ''/wf''))]
      \<and> (\<forall>p c. fs (snd (fetch_wf_config lib0 (ascii ''/wf'') world_home)) p = Some (File c)
             \<longleftrightarrow> fs world_home p = Some (File c))"
    by simp
  with h1 mk h2a h2b h3 cp nofile h5 show ?thesis
    by blast
qed

text \<open>
  Claim C7 as stated fails. With the tool missing and a cache file under the name of the
  workflow, \<^verbatim>\<open>fetch_wf_config\<close> returns the mapping of the file (lines 192-198) and raises
  nothing. With the tool missing and the cache directory refused, it raises the
  \<^verbatim>\<open>OSError\<close> of \<^verbatim>\<open>os.mkdir\<close> (line 175). And in the run that raises the
  \<^verbatim>\<open>AssertionError\<close> the cache directory has been made.
\<close>

theorem tool_missing_counterexample:
  "subprocess world_hit (nextflow_argv (ascii ''/wf'')) = RaisesOSError ENOENT
   \<and> fst (fetch_wf_config lib0 (ascii ''/wf'') world_hit)
       = Inr [(ascii ''params.a'', ascii ''1'')]
   \<and> subprocess world_mkdir_refused (nextflow_argv (ascii ''/wf'')) = RaisesOSError ENOENT
   \<and> fst (fetch_wf_config lib0 (ascii ''/wf'') world_mkdir_refused) = Inl (OSError EACCES)
   \<and> subprocess world_home (nextflow_argv (ascii ''/wf'')) = RaisesOSError ENOENT
   \<and> fs world_home (ascii ''/home/u/.nextflow/nf-core'') = None
   \<and> fs (snd (fetch_wf_config lib0 (ascii ''/wf'') world_home))
        (ascii ''/home/u/.nextflow/nf-core'') = Some Dir"
proof -
  have "subprocess world_hit (nextflow_argv (ascii ''/wf'')) = RaisesOSError ENOENT"
    by code_simp
  moreover have "fst (fetch_wf_config lib0 (ascii ''/wf'') world_hit)
       = Inr [(ascii ''params.a'', ascii ''1'')]"
    by code_simp
  moreover have "subprocess world_mkdir_refused (nextflow_argv (ascii ''/wf''))
       = RaisesOSError ENOENT"
    by code_simp
  moreover have "fst (fetch_wf_config lib0 (ascii ''/wf'') world_mkdir_refused)
       = Inl (OSError EACCES)"
    by code_simp
  moreover have "subprocess world_home (nextflow_argv (ascii ''/wf'')) = RaisesOSError ENOENT"
    by code_simp
  moreover have "fs world_home (ascii ''/home/u/.nextflow/nf-core'') = None"
    by code_simp
  moreover have "fs (snd (fetch_wf_config lib0 (ascii ''/wf'') world_home))
        (ascii ''/home/u/.nextflow/nf-core'') = Some Dir"
    by code_simp
  ultimately show ?thesis by blast
qed

end
